theory Spec2Isabelle
  imports Complex_Main "HOL-Library.Char_ord" "HOL-Library.List_Lexorder" "HOL-Library.Multiset"
begin

section \<open>The Ule Msee backend: completion client and history log\<close>

text \<open>
  A shallow embedding of \<^verbatim>\<open>src/backend/main.py\<close>: the retry loop of
  \<^verbatim>\<open>GroqClient.generate_response\<close>, the handler \<^verbatim>\<open>ask_question\<close> with its bounded
  history list, and the handler \<^verbatim>\<open>get_history\<close>. Exceptions are values of a sum
  type, the upstream service and the wall clock are an explicit environment, and every
  outbound call and every sleep is recorded in a trace.
\<close>

subsection \<open>Python values and exceptions\<close>

text \<open>
  What \<^verbatim>\<open>response.json()\<close> parses. A number is kept as an integer: the
  operations used on a parsed body (truth value, \<^verbatim>\<open>len\<close>, subscript, \<^verbatim>\<open>.get\<close>)
  treat a float as they treat an integer of the same sign.
\<close>

datatype json =
    JNull
  | JBool bool
  | JNum int
  | JStr string
  | JArr "json list"
  | JObj "(string \<times> json) list"

text \<open>
  The exceptions that can leave the code: FastAPI's \<^verbatim>\<open>HTTPException(status_code, detail)\<close>,
  the built-in ones raised by the constructor and by reading a parsed body, and pydantic's
  \<^verbatim>\<open>ValidationError\<close>.
\<close>

datatype error =
    HTTPException int string
  | ValueError string
  | JSONDecodeError
  | AttributeError
  | KeyError
  | TypeError
  | IndexError
  | ValidationError

text \<open>Python's truth value of a parsed JSON value (\<^verbatim>\<open>not v\<close> is its negation).\<close>

fun truthy :: "json \<Rightarrow> bool" where
  "truthy JNull = False"
| "truthy (JBool b) = b"
| "truthy (JNum n) = (n \<noteq> 0)"
| "truthy (JStr s) = (s \<noteq> [])"
| "truthy (JArr xs) = (xs \<noteq> [])"
| "truthy (JObj kvs) = (kvs \<noteq> [])"

text \<open>\<^verbatim>\<open>d.get(k, default)\<close>: only a dict has the method.\<close>

fun dict_get :: "json \<Rightarrow> string \<Rightarrow> json \<Rightarrow> error + json" where
  "dict_get (JObj kvs) k dflt = Inr (case map_of kvs k of None \<Rightarrow> dflt | Some v \<Rightarrow> v)"
| "dict_get _ k dflt = Inl AttributeError"

text \<open>\<^verbatim>\<open>len(v)\<close>.\<close>

fun py_len :: "json \<Rightarrow> error + nat" where
  "py_len (JStr s) = Inr (length s)"
| "py_len (JArr xs) = Inr (length xs)"
| "py_len (JObj kvs) = Inr (length kvs)"
| "py_len _ = Inl TypeError"

text \<open>\<^verbatim>\<open>v[k]\<close> for a string key \<open>k\<close>.\<close>

fun getitem_key :: "json \<Rightarrow> string \<Rightarrow> error + json" where
  "getitem_key (JObj kvs) k = (case map_of kvs k of None \<Rightarrow> Inl KeyError | Some v \<Rightarrow> Inr v)"
| "getitem_key _ k = Inl TypeError"

text \<open>\<^verbatim>\<open>v[0]\<close>. The keys of a parsed JSON object are strings, so \<open>0\<close> is never one.\<close>

fun getitem_0 :: "json \<Rightarrow> error + json" where
  "getitem_0 (JArr xs) = (case xs of [] \<Rightarrow> Inl IndexError | x # _ \<Rightarrow> Inr x)"
| "getitem_0 (JStr s) = (case s of [] \<Rightarrow> Inl IndexError | ch # _ \<Rightarrow> Inr (JStr [ch]))"
| "getitem_0 (JObj kvs) = Inl KeyError"
| "getitem_0 _ = Inl TypeError"

text \<open>\<^verbatim>\<open>str(n)\<close> for an integer: decimal digits, with a sign when negative.\<close>

definition digit_char :: "nat \<Rightarrow> char" where
  "digit_char d = ''0123456789'' ! d"

fun str_nat :: "nat \<Rightarrow> string" where
  "str_nat n = (if n < 10 then [digit_char n] else str_nat (n div 10) @ [digit_char (n mod 10)])"

declare str_nat.simps [simp del]

definition str_int :: "int \<Rightarrow> string" where
  "str_int i = (if i < 0 then CHR ''-'' # str_nat (nat (- i)) else str_nat (nat i))"

text \<open>
  How an f-string renders a parsed value: a string as itself, anything else through
  Python's built-in \<^verbatim>\<open>str\<close>, which is a parameter here.
\<close>

fun py_format :: "(json \<Rightarrow> string) \<Rightarrow> json \<Rightarrow> string" where
  "py_format builtin_str (JStr s) = s"
| "py_format builtin_str v = builtin_str v"

subsection \<open>The upstream service and the environment\<close>

text \<open>
  An \<^verbatim>\<open>httpx.Response\<close>: \<open>status_code\<close>, the result of \<^verbatim>\<open>response.json()\<close>
  (\<open>None\<close> when the body is not JSON and the method raises), and \<^verbatim>\<open>response.text\<close>.
\<close>

record httpx_response =
  status_code :: int
  body_json :: "json option"
  body_text :: string

text \<open>
  What \<^verbatim>\<open>await client.post(...)\<close> does: it returns a response, or raises
  \<^verbatim>\<open>httpx.TimeoutException\<close>, or raises another \<^verbatim>\<open>httpx.RequestError\<close>.
\<close>

datatype outcome =
    Response httpx_response
  | TimeoutException
  | RequestError

text \<open>
  The environment of one request: \<open>upstream k\<close> is the outcome of the outbound call of
  attempt \<open>k\<close> (counted from 0), \<open>time_time n\<close> is what the \<open>n\<close>-th call of
  \<^verbatim>\<open>time.time()\<close> inside \<^verbatim>\<open>generate_response\<close> returns (counted from 0: the
  reading of line 158, then the one of line 204), \<open>builtin_str\<close> is Python's
  \<^verbatim>\<open>str\<close> on parsed values,
  \<open>uuid4\<close> and \<open>now_isoformat\<close> are the identifier and the timestamp the handler draws.
\<close>

record env =
  upstream :: "nat \<Rightarrow> outcome"
  time_time :: "nat \<Rightarrow> real"
  builtin_str :: "json \<Rightarrow> string"
  uuid4 :: string
  now_isoformat :: string

text \<open>What the client does to the outside world, in order.\<close>

datatype event =
    Post string string
  | Sleep nat

definition posts :: "event list \<Rightarrow> (string \<times> string) list" where
  "posts tr = concat (map (\<lambda>ev. case ev of Post m q \<Rightarrow> [(m, q)] | Sleep n \<Rightarrow> []) tr)"

subsection \<open>GroqClient\<close>

record client =
  api_key :: string
  base_url :: string
  model :: string
  fallback_model :: string
  timeout :: real
  max_retries :: nat

text \<open>\<^verbatim>\<open>GroqClient.__init__\<close>; the argument is \<^verbatim>\<open>os.getenv("GROQ_API_KEY")\<close>.\<close>

definition GroqClient :: "string option \<Rightarrow> error + client" where
  "GroqClient getenv_key =
     (case getenv_key of
        None \<Rightarrow> Inl (ValueError ''GROQ_API_KEY environment variable is not set or is using placeholder value'')
      | Some k \<Rightarrow>
          if k = [] \<or> k = ''your_groq_api_key_here''
          then Inl (ValueError ''GROQ_API_KEY environment variable is not set or is using placeholder value'')
          else if take 4 k \<noteq> ''gsk_''
          then Inl (ValueError ''Invalid GROQ_API_KEY format (should start with 'gsk_')'')
          else Inr \<lparr> api_key = k,
                     base_url = ''https://api.groq.com/openai/v1'',
                     model = ''llama3-70b-8192'',
                     fallback_model = ''llama3-8b-8192'',
                     timeout = 30,
                     max_retries = 3 \<rparr>)"

text \<open>Line 162: \<^verbatim>\<open>self.model if attempt < 2 else self.fallback_model\<close>.\<close>

definition model_to_use :: "client \<Rightarrow> nat \<Rightarrow> string" where
  "model_to_use c attempt = (if attempt < 2 then model c else fallback_model c)"

text \<open>
  Lines 198 to 203: the body of a 200 response is parsed and the first choice's
  \<^verbatim>\<open>message.content\<close> is read; a missing or empty \<^verbatim>\<open>choices\<close> raises the 500.
\<close>

definition read_choice :: "httpx_response \<Rightarrow> error + json" where
  "read_choice r =
     (case body_json r of
        None \<Rightarrow> Inl JSONDecodeError
      | Some data \<Rightarrow>
          (case dict_get data ''choices'' JNull of
             Inl e \<Rightarrow> Inl e
           | Inr choices \<Rightarrow>
               if \<not> truthy choices
               then Inl (HTTPException 500 ''Ule Msee couldn't generate a response'')
               else (case py_len choices of
                       Inl e \<Rightarrow> Inl e
                     | Inr n \<Rightarrow>
                         if n = 0
                         then Inl (HTTPException 500 ''Ule Msee couldn't generate a response'')
                         else (case getitem_0 choices of
                                 Inl e \<Rightarrow> Inl e
                               | Inr choice \<Rightarrow>
                                   (case getitem_key choice ''message'' of
                                      Inl e \<Rightarrow> Inl e
                                    | Inr message \<Rightarrow> getitem_key message ''content'')))))"

text \<open>
  Lines 219 and 220: \<^verbatim>\<open>error_data.get('error', {}).get('message', 'Unknown error')\<close>
  as the f-string renders it; any exception on the way is an \<open>Inl\<close>.
\<close>

definition error_message :: "(json \<Rightarrow> string) \<Rightarrow> httpx_response \<Rightarrow> error + string" where
  "error_message bstr r =
     (case body_json r of
        None \<Rightarrow> Inl JSONDecodeError
      | Some error_data \<Rightarrow>
          (case dict_get error_data ''error'' (JObj []) of
             Inl e \<Rightarrow> Inl e
           | Inr err \<Rightarrow>
               (case dict_get err ''message'' (JStr ''Unknown error'') of
                  Inl e \<Rightarrow> Inl e
                | Inr m \<Rightarrow> Inr (py_format bstr m))))"

text \<open>
  Lines 217 to 222: the detail of an upstream error. The bare \<^verbatim>\<open>except:\<close> catches
  whatever the \<^verbatim>\<open>try\<close> raised and appends the raw text instead.
\<close>

definition error_detail :: "(json \<Rightarrow> string) \<Rightarrow> httpx_response \<Rightarrow> string" where
  "error_detail bstr r =
     ''Groq API error: '' @ str_int (status_code r) @
     (case error_message bstr r of
        Inr m \<Rightarrow> '' - '' @ m
      | Inl _ \<Rightarrow> '' - '' @ body_text r)"

text \<open>
  One pass through the body of the \<^verbatim>\<open>for\<close> loop, after the outbound call was issued:
  the function returns, raises, or goes on to the next iteration, sleeping first or not.
  A 429 on the last attempt neither raises nor continues: control falls off the end of
  the loop body, which also leads to the next iteration without a sleep.
\<close>

datatype step =
    Return "json \<times> string \<times> real"
  | Raise error
  | Continue "nat option"

definition attempt_once :: "client \<Rightarrow> env \<Rightarrow> nat \<Rightarrow> step" where
  "attempt_once c e attempt =
     (case upstream e attempt of
        Response r \<Rightarrow>
          if status_code r = 200 then
            (case read_choice r of
               Inl err \<Rightarrow> Raise err
             | Inr ai_response \<Rightarrow>
                 Return (ai_response, model_to_use c attempt, time_time e 1 - time_time e 0))
          else if status_code r = 429 then
            (if int attempt < int (max_retries c) - 1
             then Continue (Some (2 ^ attempt))
             else Continue None)
          else
            (if int attempt < int (max_retries c) - 1
             then Continue (Some (2 ^ attempt))
             else Raise (HTTPException (status_code r) (error_detail (builtin_str e) r)))
      | TimeoutException \<Rightarrow>
          if int attempt < int (max_retries c) - 1
          then Continue None
          else Raise (HTTPException 504 ''Ule Msee is taking too long to respond. Please try again.'')
      | RequestError \<Rightarrow>
          if int attempt < int (max_retries c) - 1
          then Continue (Some (2 ^ attempt))
          else Raise (HTTPException 503 ''Unable to connect to Ule Msee's AI service''))"

text \<open>Line 245, raised when the loop ends.\<close>

definition unavailable :: error where
  "unavailable = HTTPException 500 ''Ule Msee is temporarily unavailable after multiple attempts''"

definition before :: "event list \<Rightarrow> 'a \<times> event list \<Rightarrow> 'a \<times> event list" where
  "before evs p = (fst p, evs @ snd p)"

text \<open>
  The loop \<^verbatim>\<open>for attempt in range(self.max_retries)\<close> from iteration \<open>attempt\<close> on,
  with the trace of what it does.
\<close>

function attempts_from ::
  "client \<Rightarrow> env \<Rightarrow> string \<Rightarrow> nat \<Rightarrow> (error + json \<times> string \<times> real) \<times> event list" where
  "attempts_from c e question attempt =
     (if attempt < max_retries c then
        (case attempt_once c e attempt of
           Return v \<Rightarrow> (Inr v, [Post (model_to_use c attempt) question])
         | Raise err \<Rightarrow> (Inl err, [Post (model_to_use c attempt) question])
         | Continue None \<Rightarrow>
             before [Post (model_to_use c attempt) question]
               (attempts_from c e question (Suc attempt))
         | Continue (Some secs) \<Rightarrow>
             before [Post (model_to_use c attempt) question, Sleep secs]
               (attempts_from c e question (Suc attempt)))
      else (Inl unavailable, []))"
  by pat_completeness auto
termination
  by (relation "measure (\<lambda>(c, e, question, attempt). max_retries c - attempt)") auto

declare attempts_from.simps [simp del]

text \<open>\<^verbatim>\<open>GroqClient.generate_response\<close>: the loop from its first iteration.\<close>

definition generate_response ::
  "client \<Rightarrow> env \<Rightarrow> string \<Rightarrow> (error + json \<times> string \<times> real) \<times> event list" where
  "generate_response c e question = attempts_from c e question 0"

subsection \<open>The history list and the handlers\<close>

text \<open>
  A history item is the dict built at lines 308 to 314. The key \<^verbatim>\<open>id\<close> is the field
  \<open>item_id\<close> and \<^verbatim>\<open>response\<close> is \<open>response_text\<close>.
\<close>

record history_item =
  item_id :: string
  question :: string
  response_text :: json
  timestamp :: string
  model_used :: string

definition MAX_HISTORY_ITEMS :: nat where
  "MAX_HISTORY_ITEMS = 1000"

text \<open>
  Lines 316 to 320: \<^verbatim>\<open>history_items.append(history_item)\<close>, then
  \<^verbatim>\<open>history_items.pop(0)\<close> when the list is longer than \<open>MAX_HISTORY_ITEMS\<close>. The list
  is not empty after the append, so the pop cannot raise.
\<close>

definition save_to_history :: "history_item list \<Rightarrow> history_item \<Rightarrow> history_item list" where
  "save_to_history history_items history_item =
     (let appended = history_items @ [history_item]
      in if length appended > MAX_HISTORY_ITEMS then tl appended else appended)"

text \<open>
  The constructor of the response model, line 324. The field \<^verbatim>\<open>response\<close> is declared
  \<^verbatim>\<open>str\<close>, and pydantic 2 (the version the scripts of the repository install) takes a
  string there and nothing else; the model name is a string and the time a float already.
\<close>

definition QuestionResponse :: "json \<Rightarrow> string \<Rightarrow> real \<Rightarrow> error + string \<times> string \<times> real" where
  "QuestionResponse response model_name response_time =
     (case response of
        JStr s \<Rightarrow> Inr (s, model_name, response_time)
      | _ \<Rightarrow> Inl ValidationError)"

text \<open>
  \<^verbatim>\<open>ask_question\<close>, on the global list \<open>history_items\<close> passed in and returned. An
  \<^verbatim>\<open>HTTPException\<close> of the client is raised again as it is, any other exception
  becomes the 500 of line 334. After a successful \<^verbatim>\<open>generate_response\<close> the item is
  saved first and the response model is built after that, so a content that is not a
  string ends in the 500 of line 334 with the item already in the history.
\<close>

definition ask_question ::
  "client \<Rightarrow> env \<Rightarrow> string \<Rightarrow> history_item list \<Rightarrow>
     (error + string \<times> string \<times> real) \<times> history_item list" where
  "ask_question groq_client e request_question history_items =
     (case fst (generate_response groq_client e request_question) of
        Inr (response_text', model_used', response_time) \<Rightarrow>
          (let saved = save_to_history history_items
                 \<lparr> item_id = uuid4 e,
                   question = request_question,
                   response_text = response_text',
                   timestamp = now_isoformat e,
                   model_used = model_used' \<rparr>
           in case QuestionResponse response_text' model_used' response_time of
                Inr answer \<Rightarrow> (Inr answer, saved)
              | Inl _ \<Rightarrow>
                  (Inl (HTTPException 500 ''Ule Msee encountered an internal error''), saved))
      | Inl (HTTPException code detail) \<Rightarrow> (Inl (HTTPException code detail), history_items)
      | Inl _ \<Rightarrow>
          (Inl (HTTPException 500 ''Ule Msee encountered an internal error''), history_items))"

text \<open>
  \<^verbatim>\<open>sorted(xs, key=..., reverse=True)\<close>: a stable sort in descending order of the key,
  items of equal key staying in their order in \<open>xs\<close>.
\<close>

definition sorted_reverse :: "('a \<Rightarrow> 'k::linorder) \<Rightarrow> 'a list \<Rightarrow> 'a list" where
  "sorted_reverse key xs = rev (sort_key key (rev xs))"

text \<open>
  The slice \<^verbatim>\<open>xs[:limit]\<close>: the first \<open>limit\<close> items, and for a negative \<open>limit\<close>
  all but the last \<open>-limit\<close> items.
\<close>

definition slice_to :: "int \<Rightarrow> 'a list \<Rightarrow> 'a list" where
  "slice_to limit xs =
     (if 0 \<le> limit then take (nat limit) xs else take (nat (int (length xs) + limit)) xs)"

text \<open>
  \<^verbatim>\<open>get_history(limit)\<close>: the items sorted by the string \<open>timestamp\<close>, newest first,
  cut to the limit. \<^verbatim>\<open>sorted\<close> builds a new list, so the global list is returned as
  it was. Nothing in the \<^verbatim>\<open>try\<close> can raise: every item has the key and every
  timestamp is a string.
\<close>

definition get_history ::
  "int \<Rightarrow> history_item list \<Rightarrow> history_item list \<times> history_item list" where
  "get_history limit history_items =
     (slice_to limit (sorted_reverse timestamp history_items), history_items)"

subsection \<open>Concrete clients, responses and environments\<close>

text \<open>The client built from the key \<open>gsk_test\<close>.\<close>

definition client0 :: client where
  "client0 = \<lparr> api_key = ''gsk_test'',
               base_url = ''https://api.groq.com/openai/v1'',
               model = ''llama3-70b-8192'',
               fallback_model = ''llama3-8b-8192'',
               timeout = 30,
               max_retries = 3 \<rparr>"

text \<open>A response of the given status whose body is \<^verbatim>\<open>{"error": {"message": "boom"}}\<close>.\<close>

definition resp_error :: "int \<Rightarrow> httpx_response" where
  "resp_error code =
     \<lparr> status_code = code,
       body_json = Some (JObj [(''error'', JObj [(''message'', JStr ''boom'')])]),
       body_text = ''{\"error\": {\"message\": \"boom\"}}'' \<rparr>"

text \<open>
  A response of the given status whose body is
  \<^verbatim>\<open>{"choices": [{"message": {"content": "hi"}}]}\<close>.
\<close>

definition resp_choices :: "int \<Rightarrow> httpx_response" where
  "resp_choices code =
     \<lparr> status_code = code,
       body_json =
         Some (JObj [(''choices'', JArr [JObj [(''message'', JObj [(''content'', JStr ''hi'')])]])]),
       body_text = ''{\"choices\": [{\"message\": {\"content\": \"hi\"}}]}'' \<rparr>"

text \<open>A response of the given status whose body is \<^verbatim>\<open>{"choices": []}\<close>.\<close>

definition resp_no_choices :: "int \<Rightarrow> httpx_response" where
  "resp_no_choices code =
     \<lparr> status_code = code,
       body_json = Some (JObj [(''choices'', JArr [])]),
       body_text = ''{\"choices\": []}'' \<rparr>"

text \<open>A response of the given status whose body is plain text, not JSON.\<close>

definition resp_plain :: "int \<Rightarrow> httpx_response" where
  "resp_plain code =
     \<lparr> status_code = code,
       body_json = None,
       body_text = ''Internal Server Error'' \<rparr>"

text \<open>An upstream that answers every call alike, and one whose first answer differs.\<close>

definition always :: "outcome \<Rightarrow> nat \<Rightarrow> outcome" where
  "always out k = out"

definition first_then :: "outcome \<Rightarrow> outcome \<Rightarrow> nat \<Rightarrow> outcome" where
  "first_then out0 out k = (if k = 0 then out0 else out)"

text \<open>
  An environment around an upstream: the clock reads 10 and then 12, the identifier and
  the timestamp are fixed, and \<^verbatim>\<open>str\<close> of a value that is not a string is not needed.
\<close>

definition clock0 :: "nat \<Rightarrow> real" where
  "clock0 n = (if n = 0 then 10 else 12)"

definition no_str :: "json \<Rightarrow> string" where
  "no_str v = []"

definition env_of :: "(nat \<Rightarrow> outcome) \<Rightarrow> env" where
  "env_of up =
     \<lparr> upstream = up,
       time_time = clock0,
       builtin_str = no_str,
       uuid4 = ''0b0e9a3c-6d1f-4c62-9a55-3f3c1d2e7a10'',
       now_isoformat = ''2024-05-01T12:00:00.000001'' \<rparr>"

text \<open>Two history items, the first older than the second.\<close>

definition item_a :: history_item where
  "item_a = \<lparr> item_id = ''a'', question = ''first?'', response_text = JStr ''one'',
              timestamp = ''2024-05-01T12:00:00.000001'', model_used = ''llama3-70b-8192'' \<rparr>"

definition item_b :: history_item where
  "item_b = \<lparr> item_id = ''b'', question = ''second?'', response_text = JStr ''two'',
              timestamp = ''2024-05-01T12:00:01.000001'', model_used = ''llama3-70b-8192'' \<rparr>"

text \<open>Items that differ in their identifier, one for every number.\<close>

definition numbered_item :: "nat \<Rightarrow> history_item" where
  "numbered_item n =
     \<lparr> item_id = replicate (Suc n) (CHR ''x''), question = ''again?'', response_text = JStr ''yes'',
       timestamp = ''2024-05-01T12:00:00.000001'', model_used = ''llama3-70b-8192'' \<rparr>"

section \<open>Properties of the retry loop\<close>

subsection \<open>Unfolding the loop\<close>

lemma attempts_from_done:
  "\<not> attempt < max_retries c \<Longrightarrow> attempts_from c e q attempt = (Inl unavailable, [])"
  by (simp add: attempts_from.simps)

lemma attempts_from_Return:
  "attempt < max_retries c \<Longrightarrow> attempt_once c e attempt = Return v \<Longrightarrow>
   attempts_from c e q attempt = (Inr v, [Post (model_to_use c attempt) q])"
  by (simp add: attempts_from.simps)

lemma attempts_from_Raise:
  "attempt < max_retries c \<Longrightarrow> attempt_once c e attempt = Raise err \<Longrightarrow>
   attempts_from c e q attempt = (Inl err, [Post (model_to_use c attempt) q])"
  by (simp add: attempts_from.simps)

lemma attempts_from_Continue:
  "attempt < max_retries c \<Longrightarrow> attempt_once c e attempt = Continue s \<Longrightarrow>
   attempts_from c e q attempt =
     before (Post (model_to_use c attempt) q # (case s of None \<Rightarrow> [] | Some secs \<Rightarrow> [Sleep secs]))
       (attempts_from c e q (Suc attempt))"
  by (cases s) (simp_all add: attempts_from.simps)

lemma posts_simps [simp]:
  "posts [] = []"
  "posts (Post m q # tr) = (m, q) # posts tr"
  "posts (Sleep n # tr) = posts tr"
  "posts (tr @ tr') = posts tr @ posts tr'"
  by (simp_all add: posts_def)

lemma before_simps [simp]:
  "fst (before evs p) = fst p"
  "snd (before evs p) = evs @ snd p"
  by (simp_all add: before_def)

lemma attempt_once_other:
  "upstream e k = Response r \<Longrightarrow> status_code r \<noteq> 200 \<Longrightarrow> status_code r \<noteq> 429 \<Longrightarrow>
   attempt_once c e k =
     (if int k < int (max_retries c) - 1 then Continue (Some (2 ^ k))
      else Raise (HTTPException (status_code r) (error_detail (builtin_str e) r)))"
  by (simp add: attempt_once_def)

lemma attempt_once_429:
  "upstream e k = Response r \<Longrightarrow> status_code r = 429 \<Longrightarrow>
   attempt_once c e k =
     (if int k < int (max_retries c) - 1 then Continue (Some (2 ^ k)) else Continue None)"
  by (simp add: attempt_once_def)

text \<open>A status other than 200 and 429: retried with a sleep, raised on the last attempt.\<close>

lemma attempts_from_other:
  assumes "k < max_retries c" "upstream e k = Response r"
    "status_code r \<noteq> 200" "status_code r \<noteq> 429"
  shows "attempts_from c e q k =
     (if Suc k < max_retries c
      then before [Post (model_to_use c k) q, Sleep (2 ^ k)] (attempts_from c e q (Suc k))
      else (Inl (HTTPException (status_code r) (error_detail (builtin_str e) r)),
            [Post (model_to_use c k) q]))"
proof -
  have "(int k < int (max_retries c) - 1) = (Suc k < max_retries c)" by linarith
  with assms show ?thesis
    by (simp add: attempts_from_Continue attempts_from_Raise attempt_once_other)
qed

text \<open>Reading a parsed body raises built-in exceptions only.\<close>

lemma dict_get_builtin [simp]: "dict_get d k v \<noteq> Inl (HTTPException s m)"
  by (cases d) simp_all

lemma py_len_builtin [simp]: "py_len v \<noteq> Inl (HTTPException s m)"
  by (cases v) simp_all

lemma getitem_key_builtin [simp]: "getitem_key v k \<noteq> Inl (HTTPException s m)"
  by (cases v) (simp_all split: option.splits)

lemma getitem_0_builtin [simp]: "getitem_0 v \<noteq> Inl (HTTPException s m)"
  by (cases v) (simp_all split: list.splits)

text \<open>No \<^verbatim>\<open>raise\<close> inside the loop raises the exception of line 245.\<close>

lemma error_detail_neq:
  "error_detail b r \<noteq> ''Ule Msee is temporarily unavailable after multiple attempts''"
  by (simp add: error_detail_def)

lemma read_choice_neq: "read_choice r \<noteq> Inl unavailable"
  by (auto simp: read_choice_def unavailable_def split: option.splits sum.splits if_splits)

lemma attempt_once_Raise_neq: "attempt_once c e k \<noteq> Raise unavailable"
  using read_choice_neq[of "case upstream e k of Response r \<Rightarrow> r"] error_detail_neq
  by (auto simp: attempt_once_def unavailable_def split: outcome.splits sum.splits if_splits)

subsection \<open>The constructed client and the order of the calls\<close>

lemma GroqClient_test: "GroqClient (Some ''gsk_test'') = Inr client0"
  by (simp add: GroqClient_def client0_def)

lemma GroqClient_fields:
  "GroqClient key = Inr c \<Longrightarrow>
   max_retries c = 3 \<and> model c = ''llama3-70b-8192'' \<and> fallback_model c = ''llama3-8b-8192''"
  by (auto simp: GroqClient_def split: option.splits if_splits)

text \<open>Every attempt that runs issues its call first.\<close>

lemma attempts_from_starts:
  "k < max_retries c \<Longrightarrow> \<exists>tr. snd (attempts_from c e q k) = Post (model_to_use c k) q # tr"
  by (cases "attempt_once c e k")
     (auto simp: attempts_from_Return attempts_from_Raise attempts_from_Continue)

text \<open>The calls of the loop from attempt \<open>k\<close> on are those of attempts \<open>k\<close>, \<open>k + 1\<close>, ...\<close>

lemma posts_attempts_from:
  "posts (snd (attempts_from c e q k)) =
     map (\<lambda>j. (model_to_use c j, q)) [k ..< k + length (posts (snd (attempts_from c e q k)))]"
proof (induction "max_retries c - k" arbitrary: k)
  case 0
  then show ?case by (simp add: attempts_from_done)
next
  case (Suc n)
  then have k: "k < max_retries c" and n: "n = max_retries c - Suc k" by linarith+
  show ?case
  proof (cases "attempt_once c e k")
    case (Return v)
    with k show ?thesis by (simp add: attempts_from_Return)
  next
    case (Raise err)
    with k show ?thesis by (simp add: attempts_from_Raise)
  next
    case (Continue s)
    let ?rest = "posts (snd (attempts_from c e q (Suc k)))"
    have split: "posts (snd (attempts_from c e q k)) = (model_to_use c k, q) # ?rest"
      using k Continue by (cases s) (simp_all add: attempts_from_Continue)
    have "?rest = map (\<lambda>j. (model_to_use c j, q)) [Suc k ..< Suc k + length ?rest]"
      using Suc.hyps(1) [OF n] .
    then have rest: "map (\<lambda>j. (model_to_use c j, q)) [Suc k ..< Suc k + length ?rest] = ?rest"
      by (rule sym)
    have up: "[k ..< k + Suc (length ?rest)] = k # [Suc k ..< Suc k + length ?rest]"
      using upt_conv_Cons [of k "k + Suc (length ?rest)"] by simp
    have "map (\<lambda>j. (model_to_use c j, q)) [k ..< k + Suc (length ?rest)] =
        (model_to_use c k, q) # map (\<lambda>j. (model_to_use c j, q)) [Suc k ..< Suc k + length ?rest]"
      by (simp only: up list.map)
    also have "\<dots> = (model_to_use c k, q) # ?rest"
      by (simp only: rest)
    finally show ?thesis
      by (simp only: split length_Cons)
  qed
qed

lemma length_posts_attempts_from:
  "length (posts (snd (attempts_from c e q k))) \<le> max_retries c - k"
proof (induction "max_retries c - k" arbitrary: k)
  case 0
  then show ?case by (simp add: attempts_from_done)
next
  case (Suc n)
  then have k: "k < max_retries c" and n: "n = max_retries c - Suc k" by linarith+
  show ?case
  proof (cases "attempt_once c e k")
    case (Return v)
    with k show ?thesis by (simp add: attempts_from_Return)
  next
    case (Raise err)
    with k show ?thesis by (simp add: attempts_from_Raise)
  next
    case (Continue s)
    have "length (posts (snd (attempts_from c e q k))) =
        Suc (length (posts (snd (attempts_from c e q (Suc k)))))"
      using k Continue by (cases s) (simp_all add: attempts_from_Continue)
    with Suc.hyps(1) [OF n] k show ?thesis by linarith
  qed
qed

text \<open>An attempt that returns or raises is the last one.\<close>

lemma posts_bound:
  assumes "k < max_retries c" "\<And>s. attempt_once c e k \<noteq> Continue s" "j \<le> k"
  shows "length (posts (snd (attempts_from c e q j))) \<le> Suc k - j"
  using assms(3)
proof (induction "k - j" arbitrary: j)
  case 0
  then have jk: "j = k" by simp
  show ?case
  proof (cases "attempt_once c e k")
    case (Return v)
    with assms(1) jk show ?thesis by (simp add: attempts_from_Return)
  next
    case (Raise err)
    with assms(1) jk show ?thesis by (simp add: attempts_from_Raise)
  next
    case (Continue s)
    with assms(2) show ?thesis by blast
  qed
next
  case (Suc n)
  then have j: "j < max_retries c" "Suc j \<le> k" and n: "n = k - Suc j"
    using assms(1) by linarith+
  show ?case
  proof (cases "attempt_once c e j")
    case (Return v)
    with j show ?thesis by (simp add: attempts_from_Return)
  next
    case (Raise err)
    with j show ?thesis by (simp add: attempts_from_Raise)
  next
    case (Continue s)
    have "length (posts (snd (attempts_from c e q j))) =
        Suc (length (posts (snd (attempts_from c e q (Suc j)))))"
      using j Continue by (cases s) (simp_all add: attempts_from_Continue)
    with Suc.hyps(1) [OF n j(2)] j show ?thesis by linarith
  qed
qed

text \<open>One status other than 200 and 429 on every attempt from \<open>k\<close> on.\<close>

lemma persistent_status:
  assumes "s \<noteq> 200" "s \<noteq> 429"
    and "\<And>j. k \<le> j \<Longrightarrow> j < max_retries c \<Longrightarrow> \<exists>r. upstream e j = Response r \<and> status_code r = s"
    and "k < max_retries c"
  shows "\<exists>r. upstream e (max_retries c - 1) = Response r \<and>
           fst (attempts_from c e q k) = Inl (HTTPException s (error_detail (builtin_str e) r)) \<and>
           length (posts (snd (attempts_from c e q k))) = max_retries c - k"
  using assms(3,4)
proof (induction "max_retries c - k" arbitrary: k)
  case 0
  then show ?case by simp
next
  case (Suc n)
  from Suc.prems(1) [of k] Suc.prems(2)
  obtain r where r: "upstream e k = Response r" "status_code r = s" by auto
  note step = attempts_from_other [OF Suc.prems(2) r(1), of q]
  show ?case
  proof (cases "Suc k < max_retries c")
    case True
    have n: "n = max_retries c - Suc k" using Suc.hyps(2) by linarith
    have "\<exists>r. upstream e (max_retries c - 1) = Response r \<and>
           fst (attempts_from c e q (Suc k)) = Inl (HTTPException s (error_detail (builtin_str e) r)) \<and>
           length (posts (snd (attempts_from c e q (Suc k)))) = max_retries c - Suc k"
      using Suc.hyps(1) [OF n _ True] Suc.prems(1) by simp
    with step r assms(1,2) True show ?thesis by auto
  next
    case False
    with Suc.prems(2) have "max_retries c - 1 = k" by linarith
    with step r assms(1,2) False Suc.prems(2) show ?thesis by auto
  qed
qed

lemma error_detail_message:
  assumes "body_json r = Some (JObj kvs)" "map_of kvs ''error'' = Some (JObj ekvs)"
    "map_of ekvs ''message'' = Some (JStr m)"
  shows "error_detail b r = ''Groq API error: '' @ str_int (status_code r) @ '' - '' @ m"
  using assms by (simp add: error_detail_def error_message_def)

text \<open>The detail of an upstream error, for every body.\<close>

lemma error_detail_closed:
  "error_detail b r =
     ''Groq API error: '' @ str_int (status_code r) @ '' - '' @
     (case body_json r of
        None \<Rightarrow> body_text r
      | Some (JObj kvs) \<Rightarrow>
          (case map_of kvs ''error'' of
             None \<Rightarrow> ''Unknown error''
           | Some (JObj ekvs) \<Rightarrow>
               (case map_of ekvs ''message'' of
                  None \<Rightarrow> ''Unknown error''
                | Some (JStr m) \<Rightarrow> m
                | Some v \<Rightarrow> b v)
           | Some _ \<Rightarrow> body_text r)
      | Some _ \<Rightarrow> body_text r)"
  by (auto simp: error_detail_def error_message_def split: option.splits json.splits)

text \<open>
  When the attempts before \<open>k\<close> all went on to the next iteration, the run of
  \<open>generate_response\<close> is \<open>k\<close> calls followed by the loop from attempt \<open>k\<close>.
\<close>

lemma generate_response_reaches:
  assumes "\<And>j. j < k \<Longrightarrow> \<exists>s. attempt_once c e j = Continue s" "k \<le> max_retries c"
  shows "\<exists>pre. generate_response c e q = before pre (attempts_from c e q k) \<and>
           length (posts pre) = k"
  using assms
proof (induction k)
  case 0
  have "generate_response c e q = before [] (attempts_from c e q 0)"
    by (simp add: generate_response_def before_def)
  then show ?case by (intro exI [of _ "[]"]) simp
next
  case (Suc k)
  from Suc.IH Suc.prems obtain pre where pre:
    "generate_response c e q = before pre (attempts_from c e q k)" "length (posts pre) = k"
    by force
  from Suc.prems(1) [of k] obtain s where s: "attempt_once c e k = Continue s" by auto
  let ?evs = "Post (model_to_use c k) q # (case s of None \<Rightarrow> [] | Some secs \<Rightarrow> [Sleep secs])"
  from Suc.prems(2) have "k < max_retries c" by simp
  from attempts_from_Continue [OF this s, of q] pre(1)
  have "generate_response c e q = before (pre @ ?evs) (attempts_from c e q (Suc k))"
    by (simp add: before_def)
  moreover have "length (posts (pre @ ?evs)) = Suc k"
    using pre(2) by (cases s) simp_all
  ultimately show ?case by blast
qed

lemma generate_response_at:
  assumes "\<And>j. j < k \<Longrightarrow> \<exists>s. attempt_once c e j = Continue s" "k \<le> max_retries c"
  shows "fst (generate_response c e q) = fst (attempts_from c e q k) \<and>
         length (posts (snd (generate_response c e q))) =
           k + length (posts (snd (attempts_from c e q k)))"
proof -
  from generate_response_reaches [OF assms, of q] obtain pre where
    "generate_response c e q = before pre (attempts_from c e q k)" "length (posts pre) = k"
    by blast
  then show ?thesis by simp
qed

section \<open>The completion client\<close>

text \<open>
  Claim C1, as amended. A 401 or a 403 has no branch of its own: it is handled like every
  status other than 200 and 429. Before the last attempt the client sleeps
  \<open>2 ^ attempt\<close> seconds and goes on to the next attempt; on the last attempt it raises
  an \<open>HTTPException\<close> that carries the status and the detail of the upstream error,
  and makes no further call. (\<open>attempts_from c e q k\<close> is the run of
  \<open>generate_response\<close> from attempt \<open>k\<close> on.)
\<close>

theorem auth_error_is_retried:
  assumes "k < max_retries c" "upstream e k = Response r"
    "status_code r = 401 \<or> status_code r = 403"
  shows "attempts_from c e q k =
     (if Suc k < max_retries c
      then before [Post (model_to_use c k) q, Sleep (2 ^ k)] (attempts_from c e q (Suc k))
      else (Inl (HTTPException (status_code r) (error_detail (builtin_str e) r)),
            [Post (model_to_use c k) q]))"
  using assms attempts_from_other [of k c e r q] by auto

text \<open>
  The constructed client against an upstream that always answers 401: the first attempt
  is followed by a sleep of one second and the second attempt, the third raises.
\<close>

theorem auth_error_is_retried_witness:
  "max_retries client0 = 3 \<and>
   upstream (env_of (always (Response (resp_error 401)))) 0 = Response (resp_error 401) \<and>
   upstream (env_of (always (Response (resp_error 401)))) 2 = Response (resp_error 401) \<and>
   status_code (resp_error 401) = 401 \<and>
   attempts_from client0 (env_of (always (Response (resp_error 401)))) ''q'' 0 =
     before [Post ''llama3-70b-8192'' ''q'', Sleep 1]
       (attempts_from client0 (env_of (always (Response (resp_error 401)))) ''q'' (Suc 0)) \<and>
   attempts_from client0 (env_of (always (Response (resp_error 401)))) ''q'' 2 =
     (Inl (HTTPException 401 ''Groq API error: 401 - boom''), [Post ''llama3-8b-8192'' ''q''])"
proof -
  let ?e = "env_of (always (Response (resp_error 401)))"
  have up: "\<And>k. upstream ?e k = Response (resp_error 401)"
    by (simp add: env_of_def always_def)
  have st: "status_code (resp_error 401) = 401 \<or> status_code (resp_error 401) = 403"
    by (simp add: resp_error_def)
  have m: "max_retries client0 = 3" by (simp add: client0_def)
  have a0: "attempts_from client0 ?e ''q'' 0 =
      before [Post ''llama3-70b-8192'' ''q'', Sleep 1] (attempts_from client0 ?e ''q'' (Suc 0))"
    using auth_error_is_retried [OF _ up st, of 0 client0 "''q''"]
    by (simp add: m) (simp add: model_to_use_def client0_def)
  have a2: "attempts_from client0 ?e ''q'' 2 =
      (Inl (HTTPException 401 ''Groq API error: 401 - boom''), [Post ''llama3-8b-8192'' ''q''])"
    using auth_error_is_retried [OF _ up st, of 2 client0 "''q''"]
    by (simp add: m)
       (simp add: model_to_use_def client0_def resp_error_def error_detail_def
         error_message_def str_int_def str_nat.simps digit_char_def env_of_def)
  from a0 a2 up m show ?thesis
    by (simp add: resp_error_def)
qed

text \<open>
  Claim C1 as stated fails: a 401 on the first attempt is not surfaced at once. The client
  sleeps, calls again, and returns the answer of the second call.
\<close>

theorem auth_error_not_terminal:
  "generate_response client0
     (env_of (first_then (Response (resp_error 401)) (Response (resp_choices 200)))) ''q'' =
   (Inr (JStr ''hi'', ''llama3-70b-8192'', 2),
    [Post ''llama3-70b-8192'' ''q'', Sleep 1, Post ''llama3-70b-8192'' ''q''])"
  by code_simp

text \<open>
  Claim C2, as amended. When attempt \<open>k\<close> receives a 429 and is not the last one, the
  client sleeps \<open>2 ^ k\<close> seconds and then issues the call of attempt \<open>k + 1\<close>. When
  the 429 arrives on the last attempt, no further call is made and the exception of line
  245 is raised: the generic \<open>HTTPException\<close> with status 500 and the detail
  ``temporarily unavailable after multiple attempts'', not an error of its own for the
  rate limit.
\<close>

theorem rate_limit_backoff:
  assumes "k < max_retries c" "upstream e k = Response r" "status_code r = 429"
  shows "attempts_from c e q k =
     (if Suc k < max_retries c
      then before [Post (model_to_use c k) q, Sleep (2 ^ k)] (attempts_from c e q (Suc k))
      else (Inl unavailable, [Post (model_to_use c k) q])) \<and>
     (\<exists>tr. snd (attempts_from c e q k) =
        (if Suc k < max_retries c
         then [Post (model_to_use c k) q, Sleep (2 ^ k), Post (model_to_use c (Suc k)) q] @ tr
         else [Post (model_to_use c k) q]))"
proof (cases "Suc k < max_retries c")
  case True
  then have "int k < int (max_retries c) - 1" by linarith
  with assms have step: "attempts_from c e q k =
      before [Post (model_to_use c k) q, Sleep (2 ^ k)] (attempts_from c e q (Suc k))"
    by (simp add: attempts_from_Continue attempt_once_429)
  from attempts_from_starts [OF True, of e q]
  obtain tr where "snd (attempts_from c e q (Suc k)) = Post (model_to_use c (Suc k)) q # tr" ..
  with step True show ?thesis by simp
next
  case False
  then have "\<not> int k < int (max_retries c) - 1" by linarith
  with assms False show ?thesis
    by (simp add: attempts_from_Continue attempt_once_429 attempts_from_done before_def)
qed

text \<open>
  A 429 on the first attempt and a 200 with a choice on the second: one sleep of one
  second between the two calls, and the answer comes with the model of the second attempt.
\<close>

theorem rate_limit_backoff_witness:
  "max_retries client0 = 3 \<and>
   upstream (env_of (first_then (Response (resp_error 429)) (Response (resp_choices 200)))) 0 =
     Response (resp_error 429) \<and>
   status_code (resp_error 429) = 429 \<and>
   attempts_from client0
     (env_of (first_then (Response (resp_error 429)) (Response (resp_choices 200)))) ''q'' 0 =
     before [Post ''llama3-70b-8192'' ''q'', Sleep 1]
       (attempts_from client0
          (env_of (first_then (Response (resp_error 429)) (Response (resp_choices 200)))) ''q''
          (Suc 0)) \<and>
   generate_response client0
     (env_of (first_then (Response (resp_error 429)) (Response (resp_choices 200)))) ''q'' =
     (Inr (JStr ''hi'', ''llama3-70b-8192'', 2),
      [Post ''llama3-70b-8192'' ''q'', Sleep 1, Post ''llama3-70b-8192'' ''q''])"
proof -
  let ?e = "env_of (first_then (Response (resp_error 429)) (Response (resp_choices 200)))"
  have up: "upstream ?e 0 = Response (resp_error 429)"
    by (simp add: env_of_def first_then_def)
  have st: "status_code (resp_error 429) = 429"
    by (simp add: resp_error_def)
  have m: "max_retries client0 = 3" by (simp add: client0_def)
  have a0: "attempts_from client0 ?e ''q'' 0 =
      before [Post ''llama3-70b-8192'' ''q'', Sleep 1] (attempts_from client0 ?e ''q'' (Suc 0))"
    using rate_limit_backoff [OF _ up st, of client0 "''q''"]
    by (simp add: m) (simp add: model_to_use_def client0_def)
  have a1: "attempts_from client0 ?e ''q'' (Suc 0) =
      (Inr (JStr ''hi'', ''llama3-70b-8192'', 2), [Post ''llama3-70b-8192'' ''q''])"
    by (simp add: attempts_from.simps attempt_once_def env_of_def first_then_def resp_choices_def
        read_choice_def model_to_use_def client0_def clock0_def)
  from a0 a1 up st m show ?thesis
    by (simp add: generate_response_def before_def)
qed

text \<open>
  Claim C2 as stated fails in its second half: with a 429 on every attempt the client
  raises the generic 500 of line 245, whose status is not 429 and whose detail does not
  mention the rate limit.
\<close>

theorem rate_limit_exhausted_is_generic:
  "generate_response client0 (env_of (always (Response (resp_error 429)))) ''q'' =
   (Inl (HTTPException 500 ''Ule Msee is temporarily unavailable after multiple attempts''),
    [Post ''llama3-70b-8192'' ''q'', Sleep 1, Post ''llama3-70b-8192'' ''q'', Sleep 2,
     Post ''llama3-8b-8192'' ''q''])"
  by code_simp

text \<open>
  Claim C3. If every attempt receives a response of one status \<open>s\<close> other than 200 and
  429 (an HTTP 500, say), \<open>generate_response\<close> makes exactly \<open>max_retries\<close> outbound
  calls and then raises an \<open>HTTPException\<close> that carries \<open>s\<close> as its status code and,
  in its detail, the status followed by what the body of the last response provided: the
  value at \<^verbatim>\<open>error.message\<close> when the body is a JSON object whose \<^verbatim>\<open>error\<close> is an
  object with a message (a string as it is, another value as \<^verbatim>\<open>str\<close> renders it),
  ``Unknown error'' when the object has no \<^verbatim>\<open>error\<close> or the error has no message, and
  the raw text of the body in every other case: a body that is not JSON, JSON that is not
  an object, an \<^verbatim>\<open>error\<close> that is not an object.
\<close>

theorem persistent_upstream_error:
  assumes "0 < max_retries c" "s \<noteq> 200" "s \<noteq> 429"
    and "\<forall>k < max_retries c. \<exists>r. upstream e k = Response r \<and> status_code r = s"
  shows "\<exists>r. upstream e (max_retries c - 1) = Response r \<and>
           fst (generate_response c e q) = Inl (HTTPException s (error_detail (builtin_str e) r)) \<and>
           length (posts (snd (generate_response c e q))) = max_retries c \<and>
           error_detail (builtin_str e) r =
             ''Groq API error: '' @ str_int s @ '' - '' @
             (case body_json r of
                None \<Rightarrow> body_text r
              | Some (JObj kvs) \<Rightarrow>
                  (case map_of kvs ''error'' of
                     None \<Rightarrow> ''Unknown error''
                   | Some (JObj ekvs) \<Rightarrow>
                       (case map_of ekvs ''message'' of
                          None \<Rightarrow> ''Unknown error''
                        | Some (JStr m) \<Rightarrow> m
                        | Some v \<Rightarrow> builtin_str e v)
                   | Some _ \<Rightarrow> body_text r)
              | Some _ \<Rightarrow> body_text r) \<and>
           (\<forall>kvs ekvs m. body_json r = Some (JObj kvs) \<and> map_of kvs ''error'' = Some (JObj ekvs) \<and>
              map_of ekvs ''message'' = Some (JStr m) \<longrightarrow>
              error_detail (builtin_str e) r = ''Groq API error: '' @ str_int s @ '' - '' @ m) \<and>
           (body_json r = None \<longrightarrow>
              error_detail (builtin_str e) r =
                ''Groq API error: '' @ str_int s @ '' - '' @ body_text r)"
proof -
  from persistent_status [OF assms(2,3), of 0 c e q] assms(1,4)
  obtain r where r: "upstream e (max_retries c - 1) = Response r"
    "fst (attempts_from c e q 0) = Inl (HTTPException s (error_detail (builtin_str e) r))"
    "length (posts (snd (attempts_from c e q 0))) = max_retries c"
    by auto
  from assms(1,4) r(1) have s: "status_code r = s"
    by (metis diff_less outcome.inject zero_less_one)
  note closed = error_detail_closed [of "builtin_str e" r, unfolded s]
  have raw: "error_detail (builtin_str e) r =
      ''Groq API error: '' @ str_int s @ '' - '' @ body_text r" if "body_json r = None"
    using that by (simp add: closed)
  have msg: "error_detail (builtin_str e) r = ''Groq API error: '' @ str_int s @ '' - '' @ m"
    if "body_json r = Some (JObj kvs) \<and> map_of kvs ''error'' = Some (JObj ekvs) \<and>
      map_of ekvs ''message'' = Some (JStr m)" for kvs ekvs m
    using that error_detail_message [of r kvs ekvs m "builtin_str e"] s by simp
  have every_message: "\<forall>kvs ekvs m.
      body_json r = Some (JObj kvs) \<and> map_of kvs ''error'' = Some (JObj ekvs) \<and>
      map_of ekvs ''message'' = Some (JStr m) \<longrightarrow>
      error_detail (builtin_str e) r = ''Groq API error: '' @ str_int s @ '' - '' @ m"
    using msg by blast
  have fallback: "body_json r = None \<longrightarrow>
      error_detail (builtin_str e) r = ''Groq API error: '' @ str_int s @ '' - '' @ body_text r"
    using raw by blast
  show ?thesis
    unfolding generate_response_def
  proof (rule exI [of _ r], intro conjI)
    show "upstream e (max_retries c - 1) = Response r" by (rule r(1))
    show "fst (attempts_from c e q 0) = Inl (HTTPException s (error_detail (builtin_str e) r))"
      by (rule r(2))
    show "length (posts (snd (attempts_from c e q 0))) = max_retries c" by (rule r(3))
  qed (rule closed every_message fallback)+
qed

text \<open>
  The constructed client against an upstream that always answers 500, once with the
  body \<^verbatim>\<open>{"error": {"message": "boom"}}\<close> and once with a body of plain text.
\<close>

theorem persistent_upstream_error_witness:
  "max_retries client0 = 3 \<and>
   upstream (env_of (always (Response (resp_error 500)))) 0 = Response (resp_error 500) \<and>
   upstream (env_of (always (Response (resp_error 500)))) 1 = Response (resp_error 500) \<and>
   upstream (env_of (always (Response (resp_error 500)))) 2 = Response (resp_error 500) \<and>
   status_code (resp_error 500) = 500 \<and>
   fst (generate_response client0 (env_of (always (Response (resp_error 500)))) ''What is wisdom?'') =
     Inl (HTTPException 500 ''Groq API error: 500 - boom'') \<and>
   length (posts (snd (generate_response client0 (env_of (always (Response (resp_error 500))))
     ''What is wisdom?''))) = 3 \<and>
   upstream (env_of (always (Response (resp_plain 500)))) 0 = Response (resp_plain 500) \<and>
   upstream (env_of (always (Response (resp_plain 500)))) 1 = Response (resp_plain 500) \<and>
   upstream (env_of (always (Response (resp_plain 500)))) 2 = Response (resp_plain 500) \<and>
   status_code (resp_plain 500) = 500 \<and>
   body_json (resp_plain 500) = None \<and>
   fst (generate_response client0 (env_of (always (Response (resp_plain 500)))) ''What is wisdom?'') =
     Inl (HTTPException 500 ''Groq API error: 500 - Internal Server Error'') \<and>
   length (posts (snd (generate_response client0 (env_of (always (Response (resp_plain 500))))
     ''What is wisdom?''))) = 3"
proof -
  let ?e = "env_of (always (Response (resp_error 500)))"
  let ?p = "env_of (always (Response (resp_plain 500)))"
  have all: "\<forall>k < max_retries client0. \<exists>r. upstream ?e k = Response r \<and> status_code r = 500"
    by (simp add: env_of_def always_def resp_error_def)
  have all_plain: "\<forall>k < max_retries client0. \<exists>r. upstream ?p k = Response r \<and> status_code r = 500"
    by (simp add: env_of_def always_def resp_plain_def)
  have pos: "0 < max_retries client0"
    by (simp add: client0_def)
  have str: "str_int 500 = ''500''"
    by (simp add: str_int_def str_nat.simps digit_char_def)
  from persistent_upstream_error [OF pos _ _ all, of "''What is wisdom?''"]
  have structured: "fst (generate_response client0 ?e ''What is wisdom?'') =
      Inl (HTTPException 500 ''Groq API error: 500 - boom'') \<and>
    length (posts (snd (generate_response client0 ?e ''What is wisdom?''))) = 3"
    by (auto simp: client0_def env_of_def always_def resp_error_def str)
  from persistent_upstream_error [OF pos _ _ all_plain, of "''What is wisdom?''"]
  have plain: "fst (generate_response client0 ?p ''What is wisdom?'') =
      Inl (HTTPException 500 ''Groq API error: 500 - Internal Server Error'') \<and>
    length (posts (snd (generate_response client0 ?p ''What is wisdom?''))) = 3"
    by (auto simp: client0_def env_of_def always_def resp_plain_def str)
  from structured plain show ?thesis
    by (simp add: client0_def env_of_def always_def resp_error_def resp_plain_def)
qed




text \<open>
  Claim C5, as amended. If attempt \<open>k\<close> receives a response of status 200 whose body
  is a JSON object without \<^verbatim>\<open>choices\<close> or with an empty list there, the client
  raises the \<open>HTTPException\<close> with status 500 and the detail ``couldn't generate a
  response'' right after that call: the loop from attempt \<open>k\<close> on makes this one call,
  and the whole run of \<open>generate_response\<close> makes no more than \<open>k + 1\<close> calls. When
  the attempts before \<open>k\<close> all went on to the next one, so that attempt \<open>k\<close> is made,
  \<open>generate_response\<close> ends in that exception after exactly \<open>k + 1\<close> calls.
\<close>

theorem empty_choices_terminal:
  assumes "k < max_retries c" "upstream e k = Response r" "status_code r = 200"
    and "body_json r = Some (JObj kvs)"
    and "map_of kvs ''choices'' = None \<or> map_of kvs ''choices'' = Some (JArr [])"
  shows "attempts_from c e q k =
           (Inl (HTTPException 500 ''Ule Msee couldn't generate a response''),
            [Post (model_to_use c k) q]) \<and>
         length (posts (snd (generate_response c e q))) \<le> Suc k \<and>
         ((\<forall>j<k. \<exists>s. attempt_once c e j = Continue s) \<longrightarrow>
            fst (generate_response c e q) =
              Inl (HTTPException 500 ''Ule Msee couldn't generate a response'') \<and>
            length (posts (snd (generate_response c e q))) = Suc k)"
proof -
  from assms(4,5) have "read_choice r =
      Inl (HTTPException 500 ''Ule Msee couldn't generate a response'')"
    by (auto simp: read_choice_def)
  with assms(2,3) have once: "attempt_once c e k =
      Raise (HTTPException 500 ''Ule Msee couldn't generate a response'')"
    by (simp add: attempt_once_def)
  then have "\<And>s. attempt_once c e k \<noteq> Continue s" by simp
  from posts_bound [OF assms(1) this, of 0 q]
  have bound: "length (posts (snd (generate_response c e q))) \<le> Suc k"
    by (simp add: generate_response_def)
  from once assms(1) have from_k: "attempts_from c e q k =
      (Inl (HTTPException 500 ''Ule Msee couldn't generate a response''),
       [Post (model_to_use c k) q])"
    by (simp add: attempts_from_Raise)
  have "fst (generate_response c e q) =
        Inl (HTTPException 500 ''Ule Msee couldn't generate a response'') \<and>
      length (posts (snd (generate_response c e q))) = Suc k"
    if "\<forall>j<k. \<exists>s. attempt_once c e j = Continue s"
    using generate_response_at [of k c e q] that assms(1) from_k by simp
  with from_k bound show ?thesis by blast
qed

text \<open>A 429 on the first attempt, then a 200 with an empty list of choices.\<close>

theorem empty_choices_terminal_witness:
  "max_retries client0 = 3 \<and>
   upstream (env_of (first_then (Response (resp_error 429)) (Response (resp_no_choices 200)))) 1 =
     Response (resp_no_choices 200) \<and>
   status_code (resp_no_choices 200) = 200 \<and>
   body_json (resp_no_choices 200) = Some (JObj [(''choices'', JArr [])]) \<and>
   attempt_once client0
     (env_of (first_then (Response (resp_error 429)) (Response (resp_no_choices 200)))) 0 =
     Continue (Some 1) \<and>
   attempts_from client0
     (env_of (first_then (Response (resp_error 429)) (Response (resp_no_choices 200)))) ''q'' 1 =
     (Inl (HTTPException 500 ''Ule Msee couldn't generate a response''),
      [Post ''llama3-70b-8192'' ''q'']) \<and>
   fst (generate_response client0
     (env_of (first_then (Response (resp_error 429)) (Response (resp_no_choices 200)))) ''q'') =
     Inl (HTTPException 500 ''Ule Msee couldn't generate a response'') \<and>
   length (posts (snd (generate_response client0
     (env_of (first_then (Response (resp_error 429)) (Response (resp_no_choices 200)))) ''q'')))
     = 2"
proof -
  let ?e = "env_of (first_then (Response (resp_error 429)) (Response (resp_no_choices 200)))"
  have up: "upstream ?e 1 = Response (resp_no_choices 200)"
    by (simp add: env_of_def first_then_def)
  have st: "status_code (resp_no_choices 200) = 200"
    by (simp add: resp_no_choices_def)
  have body: "body_json (resp_no_choices 200) = Some (JObj [(''choices'', JArr [])])"
    by (simp add: resp_no_choices_def)
  have ch: "map_of [(''choices'', JArr [])] ''choices'' = None \<or>
      map_of [(''choices'', JArr [])] ''choices'' = Some (JArr [])"
    by simp
  have m: "1 < max_retries client0" by (simp add: client0_def)
  have first: "attempt_once client0 ?e 0 = Continue (Some 1)"
    by (simp add: attempt_once_def env_of_def first_then_def resp_error_def client0_def)
  then have reach: "\<forall>j<1. \<exists>s. attempt_once client0 ?e j = Continue s"
    by simp
  from empty_choices_terminal [OF m up st body ch, of "''q''"] reach
  have "attempts_from client0 ?e ''q'' 1 =
      (Inl (HTTPException 500 ''Ule Msee couldn't generate a response''),
       [Post (model_to_use client0 1) ''q'']) \<and>
    fst (generate_response client0 ?e ''q'') =
      Inl (HTTPException 500 ''Ule Msee couldn't generate a response'') \<and>
    length (posts (snd (generate_response client0 ?e ''q''))) = Suc 1"
    by blast
  with up st body first show ?thesis
    by (simp add: client0_def model_to_use_def)
qed

text \<open>
  Claim C5 as stated fails for a 2xx status other than 200: a 204 without choices is
  not terminal, the client sleeps and calls again twice before it raises.
\<close>

theorem no_content_without_choices_is_retried:
  "generate_response client0 (env_of (always (Response (resp_no_choices 204)))) ''q'' =
   (Inl (HTTPException 204 ''Groq API error: 204 - Unknown error''),
    [Post ''llama3-70b-8192'' ''q'', Sleep 1, Post ''llama3-70b-8192'' ''q'', Sleep 2,
     Post ''llama3-8b-8192'' ''q''])"
  by code_simp

text \<open>
  Claim C6. For a client built by the constructor, the \<open>k\<close>-th outbound call of
  \<open>generate_response\<close> (counted from 0) belongs to an attempt below \<open>max_retries\<close>,
  carries the question, and names the primary model when \<open>k\<close> is among the first
  \<open>max_retries - 1\<close> attempts and the fallback model on the last attempt.
\<close>

theorem model_per_attempt:
  assumes "GroqClient key = Inr c" "k < length (posts (snd (generate_response c e q)))"
  shows "k < max_retries c \<and>
         posts (snd (generate_response c e q)) ! k =
           (if k < max_retries c - 1 then model c else fallback_model c, q)"
proof -
  let ?ps = "posts (snd (generate_response c e q))"
  from GroqClient_fields [OF assms(1)] have m: "max_retries c = 3" by simp
  have len: "length ?ps \<le> max_retries c"
    using length_posts_attempts_from [of c e q 0] by (simp add: generate_response_def)
  have "?ps = map (\<lambda>j. (model_to_use c j, q)) [0 ..< 0 + length ?ps]"
    unfolding generate_response_def by (rule posts_attempts_from)
  then have "?ps ! k = map (\<lambda>j. (model_to_use c j, q)) [0 ..< 0 + length ?ps] ! k"
    by (rule arg_cong)
  also have "\<dots> = (model_to_use c k, q)"
    using assms(2) by simp
  finally have "?ps ! k = (model_to_use c k, q)" .
  moreover have "model_to_use c k = (if k < max_retries c - 1 then model c else fallback_model c)"
    by (simp add: model_to_use_def m)
  ultimately show ?thesis
    using len assms(2) by simp
qed

text \<open>Three timeouts: the calls name the primary model twice and then the fallback.\<close>

theorem model_per_attempt_witness:
  "GroqClient (Some ''gsk_test'') = Inr client0 \<and>
   posts (snd (generate_response client0 (env_of (always TimeoutException)) ''q'')) =
     [(''llama3-70b-8192'', ''q''), (''llama3-70b-8192'', ''q''), (''llama3-8b-8192'', ''q'')] \<and>
   posts (snd (generate_response client0 (env_of (always TimeoutException)) ''q'')) ! 2 =
     (fallback_model client0, ''q'')"
proof -
  let ?e = "env_of (always TimeoutException)"
  have run: "posts (snd (generate_response client0 ?e ''q'')) =
      [(''llama3-70b-8192'', ''q''), (''llama3-70b-8192'', ''q''), (''llama3-8b-8192'', ''q'')]"
    by code_simp
  then have len: "2 < length (posts (snd (generate_response client0 ?e ''q'')))"
    by simp
  from model_per_attempt [OF GroqClient_test len] run GroqClient_test
  show ?thesis
    by (simp add: client0_def)
qed

subsection \<open>The exception after the loop\<close>

lemma Continue_on_last_is_429:
  assumes "attempt_once c e k = Continue s" "\<not> Suc k < max_retries c"
  shows "\<exists>r. upstream e k = Response r \<and> status_code r = 429"
proof -
  from assms(2) have "\<not> int k < int (max_retries c) - 1" by linarith
  with assms(1) show ?thesis
    by (auto simp: attempt_once_def split: outcome.splits sum.splits if_splits)
qed

lemma not_Continue_is_not_429:
  assumes "\<And>s. attempt_once c e k \<noteq> Continue s"
  shows "\<not> (\<exists>r. upstream e k = Response r \<and> status_code r = 429)"
proof
  assume "\<exists>r. upstream e k = Response r \<and> status_code r = 429"
  then obtain r where "upstream e k = Response r" "status_code r = 429" by blast
  from attempt_once_429 [OF this, of c] have "\<exists>s. attempt_once c e k = Continue s"
    by (simp split: if_splits)
  with assms show False by blast
qed

lemma unavailable_iff_from:
  assumes "k < max_retries c"
  shows "fst (attempts_from c e q k) = Inl unavailable \<longleftrightarrow>
         length (posts (snd (attempts_from c e q k))) = max_retries c - k \<and>
         (\<exists>r. upstream e (max_retries c - 1) = Response r \<and> status_code r = 429)"
  using assms
proof (induction "max_retries c - k" arbitrary: k)
  case 0
  then show ?case by simp
next
  case (Suc n)
  note k = Suc.prems
  have last: "max_retries c - 1 = k" if "\<not> Suc k < max_retries c"
    using that k by linarith
  show ?case
  proof (cases "attempt_once c e k")
    case (Return v)
    then have "\<And>s. attempt_once c e k \<noteq> Continue s" by simp
    from not_Continue_is_not_429 [OF this] Return k last show ?thesis
      by (cases "Suc k < max_retries c") (auto simp: attempts_from_Return)
  next
    case (Raise err)
    then have "\<And>s. attempt_once c e k \<noteq> Continue s" by simp
    from not_Continue_is_not_429 [OF this] Raise k last attempt_once_Raise_neq [of c e k]
    show ?thesis
      by (cases "Suc k < max_retries c") (auto simp: attempts_from_Raise)
  next
    case (Continue s)
    have len: "length (posts (snd (attempts_from c e q k))) =
        Suc (length (posts (snd (attempts_from c e q (Suc k)))))"
      and res: "fst (attempts_from c e q k) = fst (attempts_from c e q (Suc k))"
      using k Continue by (cases s; simp add: attempts_from_Continue)+
    show ?thesis
    proof (cases "Suc k < max_retries c")
      case True
      have n: "n = max_retries c - Suc k" using Suc.hyps(2) by linarith
      from Suc.hyps(1) [OF n True] len res True show ?thesis
        by auto
    next
      case False
      from Continue_on_last_is_429 [OF Continue False] last [OF False] False len res k
      show ?thesis
        by (auto simp: attempts_from_done)
    qed
  qed
qed

text \<open>
  Claim C10. With at least one attempt configured, \<open>generate_response\<close> ends in the
  exception of line 245 exactly when the last attempt was made (there were
  \<open>max_retries\<close> outbound calls) and its call returned a response of status 429. Every
  other outcome of the last attempt returns or raises a different exception.
\<close>

theorem unavailable_iff_last_429:
  assumes "0 < max_retries c"
  shows "fst (generate_response c e q) = Inl unavailable \<longleftrightarrow>
         length (posts (snd (generate_response c e q))) = max_retries c \<and>
         (\<exists>r. upstream e (max_retries c - 1) = Response r \<and> status_code r = 429)"
  using unavailable_iff_from [OF assms, of e q] by (simp add: generate_response_def)

text \<open>A network error on the first attempt, then 429 until the attempts are used up.\<close>

theorem unavailable_iff_last_429_witness:
  "max_retries client0 = 3 \<and>
   fst (generate_response client0
     (env_of (first_then RequestError (Response (resp_error 429)))) ''q'') = Inl unavailable \<and>
   length (posts (snd (generate_response client0
     (env_of (first_then RequestError (Response (resp_error 429)))) ''q''))) = 3 \<and>
   upstream (env_of (first_then RequestError (Response (resp_error 429)))) 2 =
     Response (resp_error 429) \<and>
   status_code (resp_error 429) = 429"
proof -
  let ?e = "env_of (first_then RequestError (Response (resp_error 429)))"
  have m: "0 < max_retries client0" by (simp add: client0_def)
  have up: "upstream ?e (max_retries client0 - 1) = Response (resp_error 429)"
    by (simp add: env_of_def first_then_def client0_def)
  have st: "status_code (resp_error 429) = 429" by (simp add: resp_error_def)
  have len: "length (posts (snd (generate_response client0 ?e ''q''))) = max_retries client0"
    by code_simp
  from unavailable_iff_last_429 [OF m, of ?e "''q''"] up st len
  have "fst (generate_response client0 ?e ''q'') = Inl unavailable" by simp
  with up st len show ?thesis
    by (simp add: client0_def)
qed

section \<open>The history\<close>

lemma save_to_history_cases:
  "save_to_history hs r = (if length hs < MAX_HISTORY_ITEMS then hs @ [r] else tl (hs @ [r]))"
  by (auto simp: save_to_history_def Let_def)

lemma foldl_save_to_history:
  "length hs \<le> MAX_HISTORY_ITEMS \<Longrightarrow>
   foldl save_to_history hs rs = drop (length (hs @ rs) - MAX_HISTORY_ITEMS) (hs @ rs)"
proof (induction rs arbitrary: hs)
  case Nil
  then show ?case by simp
next
  case (Cons r rs)
  show ?case
  proof (cases "length hs < MAX_HISTORY_ITEMS")
    case True
    then have "save_to_history hs r = hs @ [r]" by (simp add: save_to_history_cases)
    moreover from True have "length (hs @ [r]) \<le> MAX_HISTORY_ITEMS" by simp
    ultimately show ?thesis using Cons.IH [of "hs @ [r]"] by simp
  next
    case False
    with Cons.prems have full: "length hs = MAX_HISTORY_ITEMS" by simp
    have save: "save_to_history hs r = tl (hs @ [r])"
      using False by (simp add: save_to_history_cases)
    have len: "length (tl (hs @ [r])) \<le> MAX_HISTORY_ITEMS" using full by simp
    have "foldl save_to_history (tl (hs @ [r])) rs =
        drop (length (tl (hs @ [r]) @ rs) - MAX_HISTORY_ITEMS) (tl (hs @ [r]) @ rs)"
      using Cons.IH [OF len] .
    also have "\<dots> = drop (length rs) (tl (hs @ [r]) @ rs)"
      using full by simp
    also have "\<dots> = drop (length rs) (tl ((hs @ [r]) @ rs))"
      using tl_append2 [of "hs @ [r]" rs] by simp
    also have "\<dots> = drop (Suc (length rs)) ((hs @ [r]) @ rs)"
      by (simp only: drop_Suc)
    also have "\<dots> = drop (length (hs @ r # rs) - MAX_HISTORY_ITEMS) (hs @ r # rs)"
      using full by simp
    finally show ?thesis using save by simp
  qed
qed

text \<open>
  Claim C7. On a history of at most \<open>MAX_HISTORY_ITEMS\<close> items, saving an item appends
  it as the newest one and, when the list was full, removes exactly the oldest item; the
  length stays within \<open>MAX_HISTORY_ITEMS\<close>. Saving the items of any list \<open>rs\<close> one
  after the other into the empty history leaves the last \<open>MAX_HISTORY_ITEMS\<close> of them,
  so saving \<open>MAX_HISTORY_ITEMS + 1\<close> items leaves all but the first, which is absent
  when the items are distinct.
\<close>

theorem save_to_history_bounded:
  assumes "length hs \<le> MAX_HISTORY_ITEMS"
  shows "save_to_history hs r =
           (if length hs < MAX_HISTORY_ITEMS then hs @ [r] else tl hs @ [r]) \<and>
         last (save_to_history hs r) = r \<and>
         length (save_to_history hs r) \<le> MAX_HISTORY_ITEMS \<and>
         foldl save_to_history [] rs = drop (length rs - MAX_HISTORY_ITEMS) rs \<and>
         (length rs = Suc MAX_HISTORY_ITEMS \<longrightarrow>
            foldl save_to_history [] rs = tl rs \<and>
            length (foldl save_to_history [] rs) = MAX_HISTORY_ITEMS \<and>
            (distinct rs \<longrightarrow> hd rs \<notin> set (foldl save_to_history [] rs)))"
proof -
  have pos: "0 < MAX_HISTORY_ITEMS" by (simp add: MAX_HISTORY_ITEMS_def)
  have one: "save_to_history hs r =
      (if length hs < MAX_HISTORY_ITEMS then hs @ [r] else tl hs @ [r])"
  proof (cases "length hs < MAX_HISTORY_ITEMS")
    case True
    then show ?thesis by (simp add: save_to_history_cases)
  next
    case False
    with assms pos have "hs \<noteq> []" by auto
    with False show ?thesis by (simp add: save_to_history_cases)
  qed
  have many: "foldl save_to_history [] rs = drop (length rs - MAX_HISTORY_ITEMS) rs"
    using foldl_save_to_history [of "[]" rs] by simp
  have over: "foldl save_to_history [] rs = tl rs \<and>
      length (foldl save_to_history [] rs) = MAX_HISTORY_ITEMS \<and>
      (distinct rs \<longrightarrow> hd rs \<notin> set (foldl save_to_history [] rs))"
    if "length rs = Suc MAX_HISTORY_ITEMS"
  proof -
    from that obtain x xs where rs: "rs = x # xs" by (cases rs) auto
    with that many show ?thesis by auto
  qed
  have newest: "last (save_to_history hs r) = r"
    by (simp add: one)
  have bounded: "length (save_to_history hs r) \<le> MAX_HISTORY_ITEMS"
    using assms pos by (simp add: one)
  from one newest bounded many over show ?thesis
    by blast
qed

text \<open>A full history of 1000 items, and 1001 distinct items saved into the empty one.\<close>

theorem save_to_history_bounded_witness:
  "length (replicate 1000 item_a) \<le> MAX_HISTORY_ITEMS \<and>
   save_to_history (replicate 1000 item_a) item_b = tl (replicate 1000 item_a) @ [item_b] \<and>
   length (save_to_history (replicate 1000 item_a) item_b) \<le> 1000 \<and>
   length (map numbered_item [0..<1001]) = Suc MAX_HISTORY_ITEMS \<and>
   distinct (map numbered_item [0..<1001]) \<and>
   foldl save_to_history [] (map numbered_item [0..<1001]) = map numbered_item [Suc 0..<1001] \<and>
   numbered_item 0 \<notin> set (foldl save_to_history [] (map numbered_item [0..<1001]))"
proof -
  have len: "length (replicate 1000 item_a) \<le> MAX_HISTORY_ITEMS"
    by (simp add: MAX_HISTORY_ITEMS_def)
  have n: "length (map numbered_item [0..<1001]) = Suc MAX_HISTORY_ITEMS"
    by (simp add: MAX_HISTORY_ITEMS_def)
  have inj: "inj numbered_item"
    by (rule injI) (simp add: numbered_item_def)
  have d: "distinct (map numbered_item [0..<1001])"
    by (simp add: distinct_map inj_on_subset [OF inj])
  have up: "[0..<1001] = 0 # [Suc 0..<1001]"
    by (rule upt_conv_Cons) simp
  have tl: "tl (map numbered_item [0..<1001]) = map numbered_item [Suc 0..<1001]"
    and hd: "hd (map numbered_item [0..<1001]) = numbered_item 0"
    by (simp_all only: up list.map list.sel)
  note bounded = save_to_history_bounded [OF len, of item_b "map numbered_item [0..<1001]"]
  from bounded len have one: "save_to_history (replicate 1000 item_a) item_b =
      tl (replicate 1000 item_a) @ [item_b]"
    by (simp add: MAX_HISTORY_ITEMS_def)
  from bounded have le: "length (save_to_history (replicate 1000 item_a) item_b) \<le> 1000"
    by (simp add: MAX_HISTORY_ITEMS_def)
  from bounded n d have "foldl save_to_history [] (map numbered_item [0..<1001]) =
      tl (map numbered_item [0..<1001]) \<and>
      hd (map numbered_item [0..<1001]) \<notin>
        set (foldl save_to_history [] (map numbered_item [0..<1001]))"
    by blast
  then have over: "foldl save_to_history [] (map numbered_item [0..<1001]) =
      map numbered_item [Suc 0..<1001] \<and>
      numbered_item 0 \<notin> set (foldl save_to_history [] (map numbered_item [0..<1001]))"
    unfolding tl hd .
  from len one le n d over show ?thesis
    by blast
qed

subsection \<open>Listing\<close>

lemma sorted_reverse_descending:
  "sorted_wrt (\<lambda>a b. key b \<le> key a) (sorted_reverse key xs)"
proof -
  have "sorted (map key (sort_key key (rev xs)))" by (rule sorted_sort_key)
  then have "sorted_wrt (\<lambda>a b. key a \<le> key b) (sort_key key (rev xs))"
    by (simp add: sorted_map)
  then show ?thesis
    by (simp add: sorted_reverse_def sorted_wrt_rev)
qed

lemma mset_sorted_reverse: "mset (sorted_reverse key xs) = mset xs"
  by (simp add: sorted_reverse_def)

text \<open>Items of equal key keep the order they have in the list.\<close>

lemma sorted_reverse_stable:
  "filter (\<lambda>x. key x = k) (sorted_reverse key xs) = filter (\<lambda>x. key x = k) xs"
proof -
  have "filter (\<lambda>x. key x = k) (sorted_reverse key xs) =
      rev (filter (\<lambda>x. key x = k) (sort_key key (rev xs)))"
    by (simp add: sorted_reverse_def rev_filter)
  also have "\<dots> = rev (filter (\<lambda>x. key x = k) (rev xs))"
    by (simp only: sort_key_stable)
  also have "\<dots> = filter (\<lambda>x. key x = k) xs"
    by (simp add: rev_filter)
  finally show ?thesis .
qed

lemma sorted_wrt_slice_to: "sorted_wrt P xs \<Longrightarrow> sorted_wrt P (slice_to limit xs)"
  by (simp add: slice_to_def sorted_wrt_take)

text \<open>
  Claim C8, as amended. For every history and every limit, \<open>get_history\<close> returns
  items in descending order of the timestamp, leaves the history as it was, and returns
  the same list when called again. For a limit that is not negative the result is the
  first \<open>limit\<close> items of the whole history sorted newest first, so it has at most
  \<open>limit\<close> items. (The sorted list is a permutation of the history.)
\<close>

theorem get_history_sorted_truncated:
  "sorted_wrt (\<lambda>a b. timestamp b \<le> timestamp a) (fst (get_history limit hs)) \<and>
   (0 \<le> limit \<longrightarrow>
      fst (get_history limit hs) = take (nat limit) (sorted_reverse timestamp hs) \<and>
      int (length (fst (get_history limit hs))) \<le> limit) \<and>
   mset (sorted_reverse timestamp hs) = mset hs \<and>
   snd (get_history limit hs) = hs \<and>
   fst (get_history limit (snd (get_history limit hs))) = fst (get_history limit hs)"
proof -
  have ordered: "sorted_wrt (\<lambda>a b. timestamp b \<le> timestamp a) (fst (get_history limit hs))"
    by (simp add: get_history_def sorted_wrt_slice_to sorted_reverse_descending)
  have cut: "0 \<le> limit \<longrightarrow>
      fst (get_history limit hs) = take (nat limit) (sorted_reverse timestamp hs) \<and>
      int (length (fst (get_history limit hs))) \<le> limit"
    by (auto simp: get_history_def slice_to_def)
  have same: "mset (sorted_reverse timestamp hs) = mset hs"
    by (rule mset_sorted_reverse)
  have kept: "snd (get_history limit hs) = hs"
    by (simp add: get_history_def)
  have again: "fst (get_history limit (snd (get_history limit hs))) = fst (get_history limit hs)"
    by (simp only: kept)
  from ordered cut same kept again show ?thesis
    by blast
qed

text \<open>Three items, two of them of the same timestamp, and limit 1.\<close>

theorem get_history_sorted_truncated_witness:
  "(0::int) \<le> 1 \<and>
   fst (get_history 1 [item_a, item_b, item_a]) = [item_b] \<and>
   int (length (fst (get_history 1 [item_a, item_b, item_a]))) \<le> 1 \<and>
   sorted_reverse timestamp [item_a, item_b, item_a] = [item_b, item_a, item_a]"
proof -
  have s: "sorted_reverse timestamp [item_a, item_b, item_a] = [item_b, item_a, item_a]"
    by (simp add: sorted_reverse_def item_a_def item_b_def)
  from get_history_sorted_truncated [of 1 "[item_a, item_b, item_a]"] s
  show ?thesis by simp
qed

text \<open>
  Claim C8 as stated fails for a negative limit: the slice \<^verbatim>\<open>[:-1]\<close> drops the last
  item only, so one item comes back where at most \<open>-1\<close> were promised.
\<close>

theorem negative_limit_keeps_items:
  "fst (get_history (- 1) [item_a, item_b]) = [item_b] \<and>
   \<not> int (length (fst (get_history (- 1) [item_a, item_b]))) \<le> - 1"
  by (simp add: get_history_def slice_to_def sorted_reverse_def item_a_def item_b_def)

subsection \<open>Asking a question\<close>

text \<open>
  After a successful \<open>generate_response\<close> the item is saved, whatever the content is;
  the handler returns when the content is a string and raises the 500 of line 334 when it
  is not.
\<close>

lemma successful_generate_saves:
  assumes "fst (generate_response c e q) = Inr (a, m, t)"
  shows "snd (ask_question c e q hs) =
           save_to_history hs \<lparr> item_id = uuid4 e, question = q, response_text = a,
                                 timestamp = now_isoformat e, model_used = m \<rparr> \<and>
         fst (ask_question c e q hs) =
           (case a of
              JStr s \<Rightarrow> Inr (s, m, t)
            | _ \<Rightarrow> Inl (HTTPException 500 ''Ule Msee encountered an internal error''))"
  using assms by (cases a) (simp_all add: ask_question_def QuestionResponse_def)

text \<open>
  Claim C9. If \<open>generate_response\<close> ends in an exception, \<open>ask_question\<close> leaves the
  history as it was and ends in an exception too: an \<open>HTTPException\<close> is passed on,
  anything else becomes the 500 of line 334. The item is built and saved only in the
  branch where \<open>generate_response\<close> returned; \<open>generate_response\<close> itself neither
  receives nor returns the history.
\<close>

theorem failed_generate_keeps_history:
  assumes "fst (generate_response c e q) = Inl err"
  shows "snd (ask_question c e q hs) = hs \<and>
         fst (ask_question c e q hs) =
           Inl (case err of
                  HTTPException code detail \<Rightarrow> HTTPException code detail
                | _ \<Rightarrow> HTTPException 500 ''Ule Msee encountered an internal error'')"
  using assms by (cases err) (simp_all add: ask_question_def)

text \<open>A 429 on every attempt: the question fails and the two items stay.\<close>

theorem failed_generate_keeps_history_witness:
  "fst (generate_response client0 (env_of (always (Response (resp_error 429)))) ''q'') =
     Inl (HTTPException 500 ''Ule Msee is temporarily unavailable after multiple attempts'') \<and>
   snd (ask_question client0 (env_of (always (Response (resp_error 429)))) ''q'' [item_a, item_b]) =
     [item_a, item_b] \<and>
   fst (ask_question client0 (env_of (always (Response (resp_error 429)))) ''q'' [item_a, item_b]) =
     Inl (HTTPException 500 ''Ule Msee is temporarily unavailable after multiple attempts'')"
proof -
  have fails: "fst (generate_response client0 (env_of (always (Response (resp_error 429)))) ''q'') =
      Inl (HTTPException 500 ''Ule Msee is temporarily unavailable after multiple attempts'')"
    by code_simp
  from failed_generate_keeps_history [OF fails, of "[item_a, item_b]"] fails
  show ?thesis by simp
qed

end
